theory Spec2Isabelle
  imports Complex_Main
begin

text \<open>
  The telemetry configuration of the Google Cloud plugin: the defaults that
  \<open>TelemetryConfigs\<close> computes from the environment and the caller's overrides, the
  configuration types of \<open>types.ts\<close>, and the logger of \<open>gcpLogger.ts\<close> that reads the
  resolved configuration.
\<close>

section \<open>JavaScript values and objects\<close>

text \<open>
  The plugin is TypeScript: at run time its configuration records are plain JavaScript
  objects. A value is a primitive or an object; an object is a plain object, an array or
  an instance of a class, and carries the map from the names of its own enumerable
  properties to their values (for an array, its indices: \<open>[]\<close> has none). A property
  can be present and hold \<open>undefined\<close>, which is not the same as being absent. The code
  does no arithmetic on numbers (it only copies them and tests them for truthiness), so
  a number is a real and NaN and the infinities are left out.
\<close>

datatype objkind = Plain | Array | Instance string

datatype jsval =
    JUndefined
  | JNull
  | JBool bool
  | JNum real
  | JStr string
  | JObject objkind "string \<Rightarrow> jsval option"

type_synonym jsobj = "string \<Rightarrow> jsval option"

text \<open>
  The property read \<open>obj.f\<close>: an absent property reads as \<open>undefined\<close>. The prototype
  chain is left out: the code reads \<open>forceDevExport\<close> and \<open>export\<close> only, which no
  built-in prototype defines.
\<close>

definition get_prop :: "jsobj \<Rightarrow> string \<Rightarrow> jsval" where
  "get_prop obj f = (case obj f of None \<Rightarrow> JUndefined | Some v \<Rightarrow> v)"

text \<open>The conversion to boolean behind \<open>!!v\<close> and \<open>v ? a : b\<close>.\<close>

fun ToBoolean :: "jsval \<Rightarrow> bool" where
  "ToBoolean JUndefined = False"
| "ToBoolean JNull = False"
| "ToBoolean (JBool b) = b"
| "ToBoolean (JNum n) = (n \<noteq> 0)"
| "ToBoolean (JStr s) = (s \<noteq> [])"
| "ToBoolean (JObject k m) = True"

text \<open>
  The object literal \<open>{ ...a, ...b }\<close>: every own property of \<open>a\<close>, then every own
  property of \<open>b\<close> over it, whatever its value.
\<close>

definition spread :: "jsobj \<Rightarrow> jsobj \<Rightarrow> jsobj" where
  "spread a b = a ++ b"

text \<open>
  A parameter with the default value \<open>{}\<close>: the default is taken when the argument is
  omitted or \<open>undefined\<close> (\<open>None\<close>).
\<close>

definition default_empty :: "jsobj option \<Rightarrow> jsobj" where
  "default_empty arg = (case arg of None \<Rightarrow> Map.empty | Some obj \<Rightarrow> obj)"

section \<open>The declared types (types.ts and the options interface)\<close>

text \<open>The fields of the interface \<open>GcpTelemetryConfig\<close>, none of them optional.\<close>

definition GcpTelemetryConfig_fields :: "string list" where
  "GcpTelemetryConfig_fields =
     [''sampler'', ''autoInstrumentation'', ''autoInstrumentationConfig'',
      ''metricExportIntervalMillis'', ''metricExportTimeoutMillis'', ''instrumentations'',
      ''disableMetrics'', ''disableTraces'', ''export'']"

text \<open>
  An object has a defined value for every field of \<open>GcpTelemetryConfig\<close>: each is an own
  property and none holds \<open>undefined\<close>.
\<close>

definition every_field_defined :: "jsobj \<Rightarrow> bool" where
  "every_field_defined obj =
     list_all (\<lambda>f. case obj f of None \<Rightarrow> False | Some v \<Rightarrow> v \<noteq> JUndefined)
       GcpTelemetryConfig_fields"

text \<open>
  An optional property declared \<open>f?: boolean\<close>, as \<open>forceDevExport\<close> is in
  \<open>GcpTelemetryConfigOptions\<close>: absent, \<open>undefined\<close> or a boolean.
\<close>

fun optional_boolean :: "jsval option \<Rightarrow> bool" where
  "optional_boolean None = True"
| "optional_boolean (Some JUndefined) = True"
| "optional_boolean (Some (JBool b)) = True"
| "optional_boolean (Some v) = False"

section \<open>TelemetryConfigs\<close>

text \<open>
  Modelled from the spec: \<open>isDevEnv\<close> belongs to the host framework and is not part of
  the sources; the spec describes its answer as an environment classification signal
  (development or production) supplied from outside.
\<close>

datatype environment = Development | Production

fun isDevEnv :: "environment \<Rightarrow> bool" where
  "isDevEnv Development = True"
| "isDevEnv Production = False"

text \<open>\<open>new AlwaysOnSampler()\<close>, an instance without own properties.\<close>

definition AlwaysOnSampler :: jsval where
  "AlwaysOnSampler = JObject (Instance ''AlwaysOnSampler'') Map.empty"

text \<open>The local constant \<open>defaults\<close> of \<open>developmentDefaults\<close>.\<close>

definition developmentDefaults_defaults :: "jsobj \<Rightarrow> jsobj" where
  "developmentDefaults_defaults overrides =
     [''sampler'' \<mapsto> AlwaysOnSampler,
      ''autoInstrumentation'' \<mapsto> JBool True,
      ''autoInstrumentationConfig'' \<mapsto>
         JObject Plain [''@opentelemetry/instrumentation-dns'' \<mapsto>
                          JObject Plain [''enabled'' \<mapsto> JBool False]],
      ''instrumentations'' \<mapsto> JObject Array Map.empty,
      ''metricExportIntervalMillis'' \<mapsto> JNum 5000,
      ''metricExportTimeoutMillis'' \<mapsto> JNum 5000,
      ''disableMetrics'' \<mapsto> JBool False,
      ''disableTraces'' \<mapsto> JBool False,
      ''export'' \<mapsto> JBool (ToBoolean (get_prop overrides ''forceDevExport''))]"

definition developmentDefaults :: "jsobj option \<Rightarrow> jsobj" where
  "developmentDefaults arg =
     (let overrides = default_empty arg
      in spread (developmentDefaults_defaults overrides) overrides)"

text \<open>The local constant \<open>defaults\<close> of \<open>productionDefaults\<close>.\<close>

definition productionDefaults_defaults :: jsobj where
  "productionDefaults_defaults =
     [''sampler'' \<mapsto> AlwaysOnSampler,
      ''autoInstrumentation'' \<mapsto> JBool True,
      ''autoInstrumentationConfig'' \<mapsto>
         JObject Plain [''@opentelemetry/instrumentation-dns'' \<mapsto>
                          JObject Plain [''enabled'' \<mapsto> JBool False]],
      ''instrumentations'' \<mapsto> JObject Array Map.empty,
      ''metricExportIntervalMillis'' \<mapsto> JNum 300000,
      ''metricExportTimeoutMillis'' \<mapsto> JNum 300000,
      ''disableMetrics'' \<mapsto> JBool False,
      ''disableTraces'' \<mapsto> JBool False,
      ''export'' \<mapsto> JBool True]"

definition productionDefaults :: "jsobj option \<Rightarrow> jsobj" where
  "productionDefaults arg =
     (let overrides = default_empty arg
      in spread productionDefaults_defaults overrides)"

text \<open>
  \<open>TelemetryConfigs.defaults\<close>, the resolution function; the environment that
  \<open>isDevEnv()\<close> reads is a parameter.
\<close>

definition defaults :: "environment \<Rightarrow> jsobj option \<Rightarrow> jsobj" where
  "defaults env arg =
     (let overrides = default_empty arg
      in if isDevEnv env then developmentDefaults (Some overrides)
         else productionDefaults (Some overrides))"

text \<open>The base record that \<open>defaults\<close> lays the overrides on, by environment.\<close>

definition base_defaults :: "environment \<Rightarrow> jsobj \<Rightarrow> jsobj" where
  "base_defaults env overrides =
     (if isDevEnv env then developmentDefaults_defaults overrides
      else productionDefaults_defaults)"

section \<open>Calls with an arbitrary argument\<close>

text \<open>
  The functions above take the overrides as a record. JavaScript lets a caller pass any
  value, and the body can then raise: reading \<open>overrides.forceDevExport\<close> throws a
  \<open>TypeError\<close> when \<open>overrides\<close> is \<open>null\<close> (or \<open>undefined\<close>, which the default parameter
  value rules out). Errors are values here: a call returns the error or the record.
\<close>

datatype error = TypeError

text \<open>The decimal numeral of an array index, as a property name.\<close>

function decimal :: "nat \<Rightarrow> string" where
  "decimal n =
     (if n < 10 then [''0123456789'' ! n]
      else decimal (n div 10) @ [''0123456789'' ! (n mod 10)])"
  by pat_completeness auto
termination
  by (relation "measure id") auto

text \<open>
  The own enumerable properties that a spread copies from a value: those of an object,
  the indexed characters of a string (a character standing for a code unit), none for
  the other primitives, and none for \<open>null\<close> and \<open>undefined\<close>, which a spread accepts.
\<close>

fun own_enumerable :: "jsval \<Rightarrow> jsobj" where
  "own_enumerable (JObject k m) = m"
| "own_enumerable (JStr s) = map_of (map (\<lambda>i. (decimal i, JStr [s ! i])) [0..<length s])"
| "own_enumerable v = Map.empty"

text \<open>
  The member read \<open>v.f\<close> on any value: a \<open>TypeError\<close> on \<open>null\<close> and \<open>undefined\<close>. As in
  \<open>get_prop\<close>, the prototype chain and the properties that are not enumerable (the
  \<open>length\<close> of a string) are left out: the code reads \<open>forceDevExport\<close> only.
\<close>

fun member_read :: "jsval \<Rightarrow> string \<Rightarrow> error + jsval" where
  "member_read JUndefined f = Inl TypeError"
| "member_read JNull f = Inl TypeError"
| "member_read v f = Inr (get_prop (own_enumerable v) f)"

text \<open>The default value \<open>{}\<close> of the parameter replaces \<open>undefined\<close> only.\<close>

fun default_param :: "jsval \<Rightarrow> jsval" where
  "default_param JUndefined = JObject Plain Map.empty"
| "default_param v = v"

text \<open>
  \<open>developmentDefaults\<close> reads \<open>overrides.forceDevExport\<close> while it builds its literal,
  and then spreads; past the read it computes as the record function does on the own
  enumerable properties of the argument. \<open>productionDefaults\<close> only spreads.
\<close>

definition developmentDefaults_call :: "jsval \<Rightarrow> error + jsobj" where
  "developmentDefaults_call arg =
     (let overrides = default_param arg
      in case member_read overrides ''forceDevExport'' of
           Inl err \<Rightarrow> Inl err
         | Inr forceDevExport \<Rightarrow>
             Inr (developmentDefaults (Some (own_enumerable overrides))))"

definition productionDefaults_call :: "jsval \<Rightarrow> error + jsobj" where
  "productionDefaults_call arg =
     (let overrides = default_param arg
      in Inr (productionDefaults (Some (own_enumerable overrides))))"

definition defaults_call :: "environment \<Rightarrow> jsval \<Rightarrow> error + jsobj" where
  "defaults_call env arg =
     (let overrides = default_param arg
      in if isDevEnv env then developmentDefaults_call overrides
         else productionDefaults_call overrides)"

section \<open>GcpLogger\<close>

record GcpPluginConfig =
  projectId :: "string option"
  telemetryConfig :: jsobj
  credentials :: "jsval option"

text \<open>The options object handed to \<open>new LoggingWinston(...)\<close>.\<close>

record LoggingWinstonOptions =
  projectId :: "string option"
  labels :: "(string \<times> string) list"
  prefix :: string
  logName :: string
  credentials :: "jsval option"

record loginfo =
  level :: string
  message :: string

datatype transport =
    LoggingWinston LoggingWinstonOptions
  | Console
  | Stream jsval

datatype log_format =
    json
  | printf "loginfo \<Rightarrow> string"

text \<open>The options object handed to \<open>winston.createLogger\<close>.\<close>

record LoggerOptions =
  transports :: "transport list"
  format :: log_format

text \<open>
  \<open>GcpLogger.getLogger\<close>, as the options it hands to \<open>winston.createLogger\<close>. The module
  variable \<open>additionalStream\<close> is a parameter (\<open>undefined\<close> until the test hook sets it);
  the parameter \<open>env\<close> is not used by the body. The dynamic import of winston is taken
  to succeed.
\<close>

definition getLogger :: "GcpPluginConfig \<Rightarrow> jsval \<Rightarrow> LoggerOptions" where
  "getLogger config additionalStream =
     (let format =
            (if ToBoolean (get_prop (telemetryConfig config) ''export'')
             then json
             else printf (\<lambda>info. ''['' @ level info @ ''] '' @ message info));
          transports =
            [if ToBoolean (get_prop (telemetryConfig config) ''export'')
             then LoggingWinston
                    \<lparr>projectId = GcpPluginConfig.projectId config,
                     labels = [(''module'', ''genkit'')],
                     prefix = ''genkit'',
                     logName = ''genkit_log'',
                     credentials = GcpPluginConfig.credentials config\<rparr>
             else Console];
          transports =
            (if ToBoolean additionalStream
             then transports @ [Stream additionalStream]
             else transports)
      in \<lparr>transports = transports, format = format\<rparr>)"

section \<open>Objects in a store\<close>

text \<open>
  The functions above compute with values. JavaScript objects have identity: \<open>new\<close> and
  every object literal create a fresh object, and \<open>{ ...a, ...b }\<close> copies property values,
  references included. To speak of side effects, and of the difference between the same
  object and an equal one, the three functions are written once more over a store: a
  list of objects, an address being an index into it. Allocation appends to the store.
  Nothing in the source assigns to a property of an existing object, so the store has no
  update operation; the objects that a literal refers to are allocated before it.
\<close>

type_synonym addr = nat

datatype hval =
    HUndefined
  | HNull
  | HBool bool
  | HNum real
  | HStr string
  | HRef addr

datatype hobj = HObj objkind "string \<Rightarrow> hval option"

type_synonym store = "hobj list"

definition alloc :: "hobj \<Rightarrow> store \<Rightarrow> addr \<times> store" where
  "alloc obj h = (length h, h @ [obj])"

text \<open>
  The own enumerable properties of the object at an address, and the property read
  \<open>obj.f\<close>. An address beyond the store has no properties: no program holds one, and the
  theorems below assume that the overrides are in the store.
\<close>

definition own_properties :: "store \<Rightarrow> addr \<Rightarrow> string \<Rightarrow> hval option" where
  "own_properties h a =
     (if a < length h then (case h ! a of HObj k m \<Rightarrow> m) else Map.empty)"

definition read_prop :: "store \<Rightarrow> addr \<Rightarrow> string \<Rightarrow> hval" where
  "read_prop h a f = (case own_properties h a f of None \<Rightarrow> HUndefined | Some v \<Rightarrow> v)"

fun ToBoolean_st :: "hval \<Rightarrow> bool" where
  "ToBoolean_st HUndefined = False"
| "ToBoolean_st HNull = False"
| "ToBoolean_st (HBool b) = b"
| "ToBoolean_st (HNum n) = (n \<noteq> 0)"
| "ToBoolean_st (HStr s) = (s \<noteq> [])"
| "ToBoolean_st (HRef a) = True"

text \<open>The default value \<open>{}\<close> of a parameter is a fresh object at every call.\<close>

definition default_empty_st :: "addr option \<Rightarrow> store \<Rightarrow> addr \<times> store" where
  "default_empty_st arg h =
     (case arg of None \<Rightarrow> alloc (HObj Plain Map.empty) h | Some a \<Rightarrow> (a, h))"

text \<open>
  The object literal \<open>defaults\<close> of \<open>developmentDefaults\<close>, given the addresses of its three
  fresh sub-objects and the value read from \<open>overrides.forceDevExport\<close>.
\<close>

definition developmentDefaults_defaults_st ::
  "addr \<Rightarrow> addr \<Rightarrow> addr \<Rightarrow> hval \<Rightarrow> string \<Rightarrow> hval option" where
  "developmentDefaults_defaults_st sampler config instrumentations forceDevExport =
     [''sampler'' \<mapsto> HRef sampler,
      ''autoInstrumentation'' \<mapsto> HBool True,
      ''autoInstrumentationConfig'' \<mapsto> HRef config,
      ''instrumentations'' \<mapsto> HRef instrumentations,
      ''metricExportIntervalMillis'' \<mapsto> HNum 5000,
      ''metricExportTimeoutMillis'' \<mapsto> HNum 5000,
      ''disableMetrics'' \<mapsto> HBool False,
      ''disableTraces'' \<mapsto> HBool False,
      ''export'' \<mapsto> HBool (ToBoolean_st forceDevExport)]"

definition developmentDefaults_st :: "addr option \<Rightarrow> store \<Rightarrow> addr \<times> store" where
  "developmentDefaults_st arg h0 =
     (let (overrides, h1) = default_empty_st arg h0;
          (sampler, h2) = alloc (HObj (Instance ''AlwaysOnSampler'') Map.empty) h1;
          (dns, h3) = alloc (HObj Plain [''enabled'' \<mapsto> HBool False]) h2;
          (config, h4) =
             alloc (HObj Plain [''@opentelemetry/instrumentation-dns'' \<mapsto> HRef dns]) h3;
          (instrumentations, h5) = alloc (HObj Array Map.empty) h4;
          (defaults, h6) =
             alloc (HObj Plain
                      (developmentDefaults_defaults_st sampler config instrumentations
                         (read_prop h5 overrides ''forceDevExport''))) h5
      in alloc (HObj Plain (own_properties h6 defaults ++ own_properties h6 overrides)) h6)"

text \<open>The object literal \<open>defaults\<close> of \<open>productionDefaults\<close>.\<close>

definition productionDefaults_defaults_st ::
  "addr \<Rightarrow> addr \<Rightarrow> addr \<Rightarrow> string \<Rightarrow> hval option" where
  "productionDefaults_defaults_st sampler config instrumentations =
     [''sampler'' \<mapsto> HRef sampler,
      ''autoInstrumentation'' \<mapsto> HBool True,
      ''autoInstrumentationConfig'' \<mapsto> HRef config,
      ''instrumentations'' \<mapsto> HRef instrumentations,
      ''metricExportIntervalMillis'' \<mapsto> HNum 300000,
      ''metricExportTimeoutMillis'' \<mapsto> HNum 300000,
      ''disableMetrics'' \<mapsto> HBool False,
      ''disableTraces'' \<mapsto> HBool False,
      ''export'' \<mapsto> HBool True]"

definition productionDefaults_st :: "addr option \<Rightarrow> store \<Rightarrow> addr \<times> store" where
  "productionDefaults_st arg h0 =
     (let (overrides, h1) = default_empty_st arg h0;
          (sampler, h2) = alloc (HObj (Instance ''AlwaysOnSampler'') Map.empty) h1;
          (dns, h3) = alloc (HObj Plain [''enabled'' \<mapsto> HBool False]) h2;
          (config, h4) =
             alloc (HObj Plain [''@opentelemetry/instrumentation-dns'' \<mapsto> HRef dns]) h3;
          (instrumentations, h5) = alloc (HObj Array Map.empty) h4;
          (defaults, h6) =
             alloc (HObj Plain
                      (productionDefaults_defaults_st sampler config instrumentations)) h5
      in alloc (HObj Plain (own_properties h6 defaults ++ own_properties h6 overrides)) h6)"

definition defaults_st :: "environment \<Rightarrow> addr option \<Rightarrow> store \<Rightarrow> addr \<times> store" where
  "defaults_st env arg h0 =
     (let (overrides, h1) = default_empty_st arg h0
      in if isDevEnv env then developmentDefaults_st (Some overrides) h1
         else productionDefaults_st (Some overrides) h1)"

text \<open>The base record of the environment, in the store.\<close>

definition base_defaults_st ::
  "environment \<Rightarrow> addr \<Rightarrow> addr \<Rightarrow> addr \<Rightarrow> hval \<Rightarrow> string \<Rightarrow> hval option" where
  "base_defaults_st env sampler config instrumentations forceDevExport =
     (if isDevEnv env
      then developmentDefaults_defaults_st sampler config instrumentations forceDevExport
      else productionDefaults_defaults_st sampler config instrumentations)"

text \<open>
  The value that a store value stands for, read to depth \<open>n\<close>; at depth 0 a reference
  is cut off and reads as \<open>undefined\<close>. Two store values are structurally equal when
  they read as the same value at every depth.
\<close>

fun reify :: "nat \<Rightarrow> store \<Rightarrow> hval \<Rightarrow> jsval" where
  "reify n h HUndefined = JUndefined"
| "reify n h HNull = JNull"
| "reify n h (HBool b) = JBool b"
| "reify n h (HNum x) = JNum x"
| "reify n h (HStr s) = JStr s"
| "reify 0 h (HRef a) = JUndefined"
| "reify (Suc n) h (HRef a) =
     (if a < length h
      then (case h ! a of HObj k m \<Rightarrow> JObject k (\<lambda>f. map_option (reify n h) (m f)))
      else JUndefined)"

text \<open>A store is closed when every reference held by one of its objects is an address in it.\<close>

definition closed_store :: "store \<Rightarrow> bool" where
  "closed_store h = (\<forall>a < length h. \<forall>f b. own_properties h a f = Some (HRef b) \<longrightarrow> b < length h)"

section \<open>Properties of the configuration defaults\<close>

lemma defaults_unfold:
  "defaults env (Some ov) = base_defaults env ov ++ ov"
  by (cases env)
     (simp_all add: defaults_def developmentDefaults_def productionDefaults_def
        base_defaults_def default_empty_def spread_def)

lemma defaults_omitted:
  "defaults env None = defaults env (Some Map.empty)"
  by (simp add: defaults_def default_empty_def)

text \<open>
  C4. With no overrides the metric export interval is 300000 ms in production and
  5000 ms in development, and both are positive integers.
\<close>

theorem metric_interval_defaults:
  "defaults Production (Some Map.empty) ''metricExportIntervalMillis'' = Some (JNum 300000)
   \<and> defaults Development (Some Map.empty) ''metricExportIntervalMillis'' = Some (JNum 5000)
   \<and> (\<exists>n::nat. 0 < n \<and>
        defaults Production (Some Map.empty) ''metricExportIntervalMillis''
          = Some (JNum (real n)))
   \<and> (\<exists>n::nat. 0 < n \<and>
        defaults Development (Some Map.empty) ''metricExportIntervalMillis''
          = Some (JNum (real n)))"
proof -
  have p: "defaults Production (Some Map.empty) ''metricExportIntervalMillis''
             = Some (JNum (real 300000))"
    by (simp add: defaults_unfold base_defaults_def productionDefaults_defaults_def)
  have d: "defaults Development (Some Map.empty) ''metricExportIntervalMillis''
             = Some (JNum (real 5000))"
    by (simp add: defaults_unfold base_defaults_def developmentDefaults_defaults_def)
  have "\<exists>n::nat. 0 < n \<and>
          defaults Production (Some Map.empty) ''metricExportIntervalMillis''
            = Some (JNum (real n))"
    using p by (intro exI [of _ 300000]) simp
  moreover have "\<exists>n::nat. 0 < n \<and>
          defaults Development (Some Map.empty) ''metricExportIntervalMillis''
            = Some (JNum (real n))"
    using d by (intro exI [of _ 5000]) simp
  ultimately show ?thesis using p d by simp
qed

lemma base_defaults_fixed:
  "f \<noteq> ''export'' \<or> e = Production \<Longrightarrow> base_defaults e ov f = base_defaults e Map.empty f"
  by (cases e) (auto simp add: base_defaults_def developmentDefaults_defaults_def)

lemma base_defaults_defined:
  "f \<in> set GcpTelemetryConfig_fields \<Longrightarrow>
   \<exists>v. base_defaults e ov f = Some v \<and> v \<noteq> JUndefined"
  by (cases e)
     (auto simp add: GcpTelemetryConfig_fields_def base_defaults_def
        developmentDefaults_defaults_def productionDefaults_defaults_def AlwaysOnSampler_def)

lemma dev_export:
  "ov ''export'' = None \<Longrightarrow>
   defaults Development (Some ov) ''export''
     = Some (JBool (ToBoolean (get_prop ov ''forceDevExport'')))"
  by (simp add: defaults_unfold map_add_def base_defaults_def developmentDefaults_defaults_def)

lemma optional_boolean_truthy:
  "optional_boolean x \<Longrightarrow>
   ToBoolean (case x of None \<Rightarrow> JUndefined | Some v \<Rightarrow> v) \<longleftrightarrow> x = Some (JBool True)"
  by (cases x rule: optional_boolean.cases) simp_all

lemma productionDefaults_unfold:
  "productionDefaults (Some ov) = productionDefaults_defaults ++ ov"
  by (simp add: productionDefaults_def default_empty_def spread_def)

lemma developmentDefaults_unfold:
  "developmentDefaults (Some ov) = developmentDefaults_defaults ov ++ ov"
  by (simp add: developmentDefaults_def default_empty_def spread_def)

text \<open>
  C1. Field-wise override layering. In either environment and for any override record, a
  field that is an own property of the overrides has the overrides' value in the result,
  and a field that is absent from the overrides has the value of the environment's base
  record (the local constant \<open>defaults\<close> of the branch taken). The statement holds for
  every property name, so for each field of \<open>GcpTelemetryConfig\<close>; among those only the
  development \<open>export\<close> entry of the base record depends on the overrides
  (\<open>base_defaults_fixed\<close>).
\<close>

theorem override_layering:
  "(ov f = Some v \<longrightarrow> defaults e (Some ov) f = Some v)
   \<and> (ov f = None \<longrightarrow> defaults e (Some ov) f = base_defaults e ov f)"
  by (simp add: defaults_unfold map_add_def)

theorem override_layering_witness:
  "defaults Production (Some [''disableMetrics'' \<mapsto> JBool True]) ''disableMetrics''
     = Some (JBool True)
   \<and> defaults Development (Some [''disableMetrics'' \<mapsto> JBool True]) ''disableTraces''
     = Some (JBool False)"
proof -
  let ?o = "[''disableMetrics'' \<mapsto> JBool True]"
  have a: "?o ''disableMetrics'' = Some (JBool True)" by simp
  have b: "?o ''disableTraces'' = None" by simp
  have "defaults Production (Some ?o) ''disableMetrics'' = Some (JBool True)"
    using override_layering [of ?o "''disableMetrics''" "JBool True" Production] a by blast
  moreover have "defaults Development (Some ?o) ''disableTraces''
                   = base_defaults Development ?o ''disableTraces''"
    using override_layering [of ?o "''disableTraces''" _ Development] b by blast
  moreover have "base_defaults Development ?o ''disableTraces'' = Some (JBool False)"
    by (simp add: base_defaults_def developmentDefaults_defaults_def)
  ultimately show ?thesis by simp
qed

text \<open>
  C2. Export gate defaults. For an override record without an \<open>export\<close> property, whose
  \<open>forceDevExport\<close> is as the interface declares it (absent, undefined or a boolean): in
  development the resolved \<open>export\<close> is true exactly when \<open>forceDevExport\<close> is the
  boolean true, with empty overrides it is false, and in production it is true.
\<close>

theorem export_gate_defaults:
  assumes "ov ''export'' = None" and "optional_boolean (ov ''forceDevExport'')"
  shows "(defaults Development (Some ov) ''export'' = Some (JBool True)
            \<longleftrightarrow> ov ''forceDevExport'' = Some (JBool True))
         \<and> defaults Development (Some Map.empty) ''export'' = Some (JBool False)
         \<and> defaults Production (Some ov) ''export'' = Some (JBool True)"
proof (intro conjI)
  have "defaults Development (Some ov) ''export''
          = Some (JBool (ToBoolean (get_prop ov ''forceDevExport'')))"
    using assms(1) by (rule dev_export)
  moreover have "ToBoolean (get_prop ov ''forceDevExport'')
                   \<longleftrightarrow> ov ''forceDevExport'' = Some (JBool True)"
    unfolding get_prop_def using assms(2) by (rule optional_boolean_truthy)
  ultimately show "defaults Development (Some ov) ''export'' = Some (JBool True)
                     \<longleftrightarrow> ov ''forceDevExport'' = Some (JBool True)"
    by simp
next
  show "defaults Development (Some Map.empty) ''export'' = Some (JBool False)"
    by (simp add: dev_export get_prop_def)
next
  show "defaults Production (Some ov) ''export'' = Some (JBool True)"
    using assms(1)
    by (simp add: defaults_unfold map_add_def base_defaults_def productionDefaults_defaults_def)
qed

theorem export_gate_defaults_witness:
  "defaults Development (Some [''forceDevExport'' \<mapsto> JBool True]) ''export''
     = Some (JBool True)
   \<and> defaults Development (Some [''forceDevExport'' \<mapsto> JBool False]) ''export''
     \<noteq> Some (JBool True)
   \<and> defaults Production (Some [''forceDevExport'' \<mapsto> JBool False]) ''export''
     = Some (JBool True)"
proof -
  let ?t = "[''forceDevExport'' \<mapsto> JBool True]"
  let ?f = "[''forceDevExport'' \<mapsto> JBool False]"
  have t: "?t ''export'' = None" "optional_boolean (?t ''forceDevExport'')" by simp_all
  have f: "?f ''export'' = None" "optional_boolean (?f ''forceDevExport'')" by simp_all
  have tv: "?t ''forceDevExport'' = Some (JBool True)" by simp
  have fv: "?f ''forceDevExport'' \<noteq> Some (JBool True)" by simp
  show ?thesis
    using export_gate_defaults [OF t] export_gate_defaults [OF f] tv fv by blast
qed

text \<open>
  C3. Completeness of the result. The functions are declared to return a
  \<open>GcpTelemetryConfig\<close>, whose nine fields are all required, and the options interface
  documents the defaults of omitted options. The optional properties of
  \<open>GcpTelemetryConfigOptions\<close> admit a field explicitly set to \<open>undefined\<close>; at the
  overrides \<open>{sampler: undefined}\<close> the spread copies that property over the default, and
  in both environments the result holds \<open>undefined\<close> for \<open>sampler\<close>: it is not complete.
\<close>

theorem undefined_override_incomplete:
  "defaults Development (Some [''sampler'' \<mapsto> JUndefined]) ''sampler'' = Some JUndefined
   \<and> \<not> every_field_defined (defaults Development (Some [''sampler'' \<mapsto> JUndefined]))
   \<and> defaults Production (Some [''sampler'' \<mapsto> JUndefined]) ''sampler'' = Some JUndefined
   \<and> \<not> every_field_defined (defaults Production (Some [''sampler'' \<mapsto> JUndefined]))"
  by (simp add: every_field_defined_def GcpTelemetryConfig_fields_def defaults_unfold)

text \<open>
  Away from such overrides the result is complete field by field: a field of
  \<open>GcpTelemetryConfig\<close> that the overrides do not set to \<open>undefined\<close> has a defined value in
  the result, whatever the other fields hold, and so has every field when the argument is
  omitted; a field that the overrides set to \<open>undefined\<close> is \<open>undefined\<close> in the result.
\<close>

lemma field_defined:
  assumes "f \<in> set GcpTelemetryConfig_fields"
  shows "(ov f \<noteq> Some JUndefined \<longrightarrow> (\<exists>v. defaults e (Some ov) f = Some v \<and> v \<noteq> JUndefined))
         \<and> (ov f = Some JUndefined \<longrightarrow> defaults e (Some ov) f = Some JUndefined)
         \<and> (\<exists>v. defaults e None f = Some v \<and> v \<noteq> JUndefined)"
proof (intro conjI impI)
  assume h: "ov f \<noteq> Some JUndefined"
  show "\<exists>v. defaults e (Some ov) f = Some v \<and> v \<noteq> JUndefined"
  proof (cases "ov f")
    case None
    with base_defaults_defined [OF assms, of e ov] show ?thesis
      by (simp add: defaults_unfold map_add_def)
  next
    case (Some v)
    with h show ?thesis by (simp add: defaults_unfold map_add_def)
  qed
next
  assume "ov f = Some JUndefined"
  then show "defaults e (Some ov) f = Some JUndefined"
    by (simp add: defaults_unfold map_add_def)
next
  from base_defaults_defined [OF assms, of e Map.empty]
  show "\<exists>v. defaults e None f = Some v \<and> v \<noteq> JUndefined"
    by (simp add: defaults_omitted defaults_unfold)
qed

text \<open>A call raises on \<open>null\<close> in development, and only there.\<close>

lemma defaults_call_null:
  "defaults_call Development JNull = Inl TypeError
   \<and> defaults_call Production JNull = Inr (defaults Production None)"
  by (simp add: defaults_call_def developmentDefaults_call_def productionDefaults_call_def
        defaults_def default_empty_def)

lemma defaults_call_record:
  "defaults_call e JUndefined = Inr (defaults e None)
   \<and> defaults_call e (JObject k ov) = Inr (defaults e (Some ov))"
  by (cases e)
     (simp_all add: defaults_call_def developmentDefaults_call_def productionDefaults_call_def
        defaults_def default_empty_def)

text \<open>
  C5. Resolution is total and performs no validation. On every override record, omitted
  or any object, in either environment, the call raises no error and returns the record
  that \<open>defaults\<close> computes. Any value set for any property name, recognised or not, is
  found unchanged in the result; a negative metric export interval and a property
  unknown to the interface are instances.
\<close>

theorem resolution_total_unvalidated:
  "defaults_call e JUndefined = Inr (defaults e None)
   \<and> defaults_call e (JObject k ov) = Inr (defaults e (Some ov))
   \<and> (\<exists>cfg. defaults_call e (JObject k (ov(f \<mapsto> v))) = Inr cfg \<and> cfg f = Some v)
   \<and> (\<exists>cfg. defaults_call e
                (JObject Plain [''metricExportIntervalMillis'' \<mapsto> JNum (- 1)]) = Inr cfg
           \<and> cfg ''metricExportIntervalMillis'' = Some (JNum (- 1)))
   \<and> (\<exists>cfg. defaults_call e (JObject Plain [''notAnOption'' \<mapsto> JStr ''x'']) = Inr cfg
           \<and> cfg ''notAnOption'' = Some (JStr ''x''))"
  by (simp add: defaults_call_record defaults_unfold)

text \<open>
  C7. Shallow merge. When the overrides carry an \<open>autoInstrumentationConfig\<close> mapping, the
  result's \<open>autoInstrumentationConfig\<close> is that mapping itself: in particular its entry for
  the DNS instrumentation is the caller's (none, if the caller gave none), never the
  default's.
\<close>

theorem shallow_merge:
  assumes "ov ''autoInstrumentationConfig'' = Some (JObject k m)"
  shows "defaults e (Some ov) ''autoInstrumentationConfig'' = Some (JObject k m)
         \<and> (\<exists>r. defaults e (Some ov) ''autoInstrumentationConfig'' = Some (JObject k r)
                \<and> r ''@opentelemetry/instrumentation-dns''
                    = m ''@opentelemetry/instrumentation-dns'')"
  using assms by (simp add: defaults_unfold map_add_def)

theorem shallow_merge_witness:
  "defaults Development
     (Some [''autoInstrumentationConfig'' \<mapsto>
              JObject Plain [''@opentelemetry/instrumentation-http'' \<mapsto>
                         JObject Plain [''enabled'' \<mapsto> JBool True]]])
     ''autoInstrumentationConfig''
   = Some (JObject Plain [''@opentelemetry/instrumentation-http'' \<mapsto>
                       JObject Plain [''enabled'' \<mapsto> JBool True]])
   \<and> (\<exists>r. defaults Development
             (Some [''autoInstrumentationConfig'' \<mapsto>
                      JObject Plain [''@opentelemetry/instrumentation-http'' \<mapsto>
                                 JObject Plain [''enabled'' \<mapsto> JBool True]]])
             ''autoInstrumentationConfig'' = Some (JObject Plain r)
           \<and> r ''@opentelemetry/instrumentation-dns'' = None)"
proof -
  let ?m = "[''@opentelemetry/instrumentation-http'' \<mapsto> JObject Plain [''enabled'' \<mapsto> JBool True]]"
  let ?ov = "[''autoInstrumentationConfig'' \<mapsto> JObject Plain ?m]"
  have h: "?ov ''autoInstrumentationConfig'' = Some (JObject Plain ?m)" by simp
  have n: "?m ''@opentelemetry/instrumentation-dns'' = None" by simp
  from shallow_merge [of ?ov Plain ?m Development, OF h] show ?thesis
    unfolding n .
qed

text \<open>
  C8. The logger is gated on the export flag. When the config's \<open>export\<close> is true,
  \<open>getLogger\<close> selects the JSON format and the cloud-logging transport; when it is
  false, the printf format \<open>[level] message\<close> and the console transport. (A stream
  registered by the test hook is appended after that transport in both cases.)
\<close>

theorem logger_gated_on_export:
  "(get_prop (telemetryConfig config) ''export'' = JBool True \<longrightarrow>
      getLogger config s =
        \<lparr>transports =
           LoggingWinston
             \<lparr>projectId = GcpPluginConfig.projectId config,
              labels = [(''module'', ''genkit'')],
              prefix = ''genkit'',
              logName = ''genkit_log'',
              credentials = GcpPluginConfig.credentials config\<rparr>
           # (if ToBoolean s then [Stream s] else []),
         format = json\<rparr>)
   \<and> (get_prop (telemetryConfig config) ''export'' = JBool False \<longrightarrow>
      getLogger config s =
        \<lparr>transports = Console # (if ToBoolean s then [Stream s] else []),
         format = printf (\<lambda>info. ''['' @ level info @ ''] '' @ message info)\<rparr>)"
  by (simp add: getLogger_def)

theorem logger_gated_on_export_witness:
  "getLogger \<lparr>GcpPluginConfig.projectId = Some ''p'',
              telemetryConfig = defaults Production None,
              GcpPluginConfig.credentials = None\<rparr> JUndefined
     = \<lparr>transports =
          [LoggingWinston \<lparr>projectId = Some ''p'', labels = [(''module'', ''genkit'')],
             prefix = ''genkit'', logName = ''genkit_log'', credentials = None\<rparr>],
        format = json\<rparr>
   \<and> getLogger \<lparr>GcpPluginConfig.projectId = Some ''p'',
                telemetryConfig = defaults Development None,
                GcpPluginConfig.credentials = None\<rparr> JUndefined
     = \<lparr>transports = [Console],
        format = printf (\<lambda>info. ''['' @ level info @ ''] '' @ message info)\<rparr>"
proof -
  let ?p = "\<lparr>GcpPluginConfig.projectId = Some ''p'',
             telemetryConfig = defaults Production None,
             GcpPluginConfig.credentials = None\<rparr>"
  let ?d = "\<lparr>GcpPluginConfig.projectId = Some ''p'',
             telemetryConfig = defaults Development None,
             GcpPluginConfig.credentials = None\<rparr>"
  have p: "get_prop (telemetryConfig ?p) ''export'' = JBool True"
    by (simp add: get_prop_def defaults_omitted defaults_unfold base_defaults_def
          productionDefaults_defaults_def)
  have d: "get_prop (telemetryConfig ?d) ''export'' = JBool False"
    by (simp add: get_prop_def defaults_omitted defaults_unfold base_defaults_def
          developmentDefaults_defaults_def)
  from logger_gated_on_export [of ?p JUndefined] p
  have 1: "getLogger ?p JUndefined =
        \<lparr>transports =
           LoggingWinston
             \<lparr>projectId = GcpPluginConfig.projectId ?p,
              labels = [(''module'', ''genkit'')],
              prefix = ''genkit'',
              logName = ''genkit_log'',
              credentials = GcpPluginConfig.credentials ?p\<rparr>
           # (if ToBoolean JUndefined then [Stream JUndefined] else []),
         format = json\<rparr>" by blast
  from logger_gated_on_export [of ?d JUndefined] d
  have 2: "getLogger ?d JUndefined =
        \<lparr>transports = Console # (if ToBoolean JUndefined then [Stream JUndefined] else []),
         format = printf (\<lambda>info. ''['' @ level info @ ''] '' @ message info)\<rparr>" by blast
  from 1 2 show ?thesis by simp
qed

text \<open>
  C9. In the base defaults of both environments the metric export timeout equals the
  metric export interval: 5000 ms in development and 300000 ms in production.
\<close>

theorem timeout_equals_interval:
  "defaults Development (Some Map.empty) ''metricExportTimeoutMillis'' = Some (JNum 5000)
   \<and> defaults Production (Some Map.empty) ''metricExportTimeoutMillis'' = Some (JNum 300000)
   \<and> (\<forall>e. defaults e (Some Map.empty) ''metricExportTimeoutMillis''
            = defaults e (Some Map.empty) ''metricExportIntervalMillis'')"
proof (intro conjI allI)
  show "defaults Development (Some Map.empty) ''metricExportTimeoutMillis'' = Some (JNum 5000)"
    by (simp add: defaults_unfold base_defaults_def developmentDefaults_defaults_def)
  show "defaults Production (Some Map.empty) ''metricExportTimeoutMillis'' = Some (JNum 300000)"
    by (simp add: defaults_unfold base_defaults_def productionDefaults_defaults_def)
  fix e
  show "defaults e (Some Map.empty) ''metricExportTimeoutMillis''
            = defaults e (Some Map.empty) ''metricExportIntervalMillis''"
    by (cases e)
       (simp_all add: defaults_unfold base_defaults_def developmentDefaults_defaults_def
          productionDefaults_defaults_def)
qed

text \<open>
  C10. In production \<open>forceDevExport\<close> has no effect on \<open>export\<close>: for overrides without
  an \<open>export\<close> property the result's \<open>export\<close> is true, and setting \<open>forceDevExport\<close> to
  any value leaves the result's \<open>export\<close> as it was; in development the two boolean
  values of \<open>forceDevExport\<close> give different results.
\<close>

theorem production_ignores_forceDevExport:
  "(ov ''export'' = None \<longrightarrow> productionDefaults (Some ov) ''export'' = Some (JBool True))
   \<and> productionDefaults (Some (ov(''forceDevExport'' \<mapsto> v))) ''export''
       = productionDefaults (Some ov) ''export''
   \<and> developmentDefaults (Some [''forceDevExport'' \<mapsto> JBool True]) ''export''
       \<noteq> developmentDefaults (Some [''forceDevExport'' \<mapsto> JBool False]) ''export''"
  by (simp add: productionDefaults_unfold developmentDefaults_unfold map_add_def
        productionDefaults_defaults_def developmentDefaults_defaults_def get_prop_def)

theorem production_ignores_forceDevExport_witness:
  "productionDefaults (Some [''forceDevExport'' \<mapsto> JBool False]) ''export'' = Some (JBool True)
   \<and> productionDefaults (Some [''forceDevExport'' \<mapsto> JBool True]) ''export'' = Some (JBool True)"
proof -
  let ?f = "[''forceDevExport'' \<mapsto> JBool False]"
  let ?t = "[''forceDevExport'' \<mapsto> JBool True]"
  have f: "?f ''export'' = None" and t: "?t ''export'' = None" by simp_all
  show ?thesis
    using production_ignores_forceDevExport [of ?f] production_ignores_forceDevExport [of ?t]
      f t by blast
qed

section \<open>Properties of resolution in the store\<close>

lemma own_properties_append:
  "a < length h \<Longrightarrow> own_properties (h @ ext) a = own_properties h a"
  by (simp add: own_properties_def nth_append)

lemma read_prop_append:
  "a < length h \<Longrightarrow> read_prop (h @ ext) a f = read_prop h a f"
  by (simp add: read_prop_def own_properties_append)

lemma own_properties_fifth:
  "own_properties (h @ [c0, c1, c2, c3, HObj k m]) (Suc (Suc (Suc (Suc (length h))))) = m"
  by (simp add: own_properties_def nth_append)

lemma defaults_st_Some:
  assumes "a < length h"
  shows "defaults_st e (Some a) h =
     (length h + 5,
      h @ [HObj (Instance ''AlwaysOnSampler'') Map.empty,
           HObj Plain [''enabled'' \<mapsto> HBool False],
           HObj Plain [''@opentelemetry/instrumentation-dns'' \<mapsto> HRef (length h + 1)],
           HObj Array Map.empty,
           HObj Plain
             (base_defaults_st e (length h) (length h + 2) (length h + 3)
                (read_prop h a ''forceDevExport'')),
           HObj Plain
             (base_defaults_st e (length h) (length h + 2) (length h + 3)
                (read_prop h a ''forceDevExport'')
              ++ own_properties h a)])"
  using assms
  by (cases e)
     (simp_all add: defaults_st_def developmentDefaults_st_def productionDefaults_st_def
        base_defaults_st_def default_empty_st_def alloc_def Let_def own_properties_fifth
        own_properties_append read_prop_append eval_nat_numeral)

lemma defaults_st_None:
  "defaults_st e None h = defaults_st e (Some (length h)) (h @ [HObj Plain Map.empty])"
  by (simp add: defaults_st_def default_empty_st_def alloc_def)

lemma reify_HRef_cong:
  assumes "a < length h" and "b < length h"
    and "h ! a = HObj k ma" and "h ! b = HObj k mb"
    and "\<And>m f. map_option (reify m h) (ma f) = map_option (reify m h) (mb f)"
  shows "reify n h (HRef a) = reify n h (HRef b)"
  using assms by (cases n) (simp_all add: fun_eq_iff)

lemma defaults_st_twice:
  assumes a: "a < length h" and a2: "a' < length (h1 @ ext)"
    and same: "own_properties (h1 @ ext) a' = own_properties h a"
    and 1: "defaults_st e (Some a) h = (r1, h1)"
    and 2: "defaults_st e (Some a') (h1 @ ext) = (r2, h2)"
  shows "reify n h2 (HRef r1) = reify n h2 (HRef r2)"
proof -
  define F where "F = read_prop h a ''forceDevExport''"
  define P where "P = own_properties h a"
  define cells where "cells b =
     [HObj (Instance ''AlwaysOnSampler'') Map.empty,
      HObj Plain [''enabled'' \<mapsto> HBool False],
      HObj Plain [''@opentelemetry/instrumentation-dns'' \<mapsto> HRef (b + 1)],
      HObj Array Map.empty,
      HObj Plain (base_defaults_st e b (b + 2) (b + 3) F),
      HObj Plain (base_defaults_st e b (b + 2) (b + 3) F ++ P)]" for b
  define b1 where "b1 = length h"
  define b2 where "b2 = length (h1 @ ext)"
  have r1: "r1 = b1 + 5" and h1: "h1 = h @ cells b1"
    using 1 by (simp_all add: defaults_st_Some [OF a] cells_def F_def P_def b1_def)
  have same: "read_prop (h1 @ ext) a' ''forceDevExport'' = F" "own_properties (h1 @ ext) a' = P"
    using same by (simp_all add: F_def P_def read_prop_def)
  have r2: "r2 = b2 + 5" and h2: "h2 = (h1 @ ext) @ cells b2"
    using 2 by (simp_all add: defaults_st_Some [OF a2] same cells_def b2_def)
  have len: "length (cells b) = 6" for b
    by (simp add: cells_def)
  have b2: "b2 = b1 + 6 + length ext"
    by (simp add: b2_def h1 b1_def len)
  have l1: "b1 + i < length h2" and l2: "b2 + i < length h2" if "i < 6" for i
    using that by (simp_all add: h2 h1 len b2 b1_def)
  have n1: "h2 ! (b1 + i) = cells b1 ! i" if "i < 6" for i
    using that by (simp add: h2 h1 nth_append len b1_def)
  have n2: "h2 ! (b2 + i) = cells b2 ! i" if "i < 6" for i
    using that by (simp add: h2 nth_append len b2_def)
  have sampler: "reify m h2 (HRef b1) = reify m h2 (HRef b2)" for m
    using l1 [of 0] l2 [of 0] n1 [of 0] n2 [of 0]
    by (intro reify_HRef_cong [where k = "Instance ''AlwaysOnSampler''"
          and ma = Map.empty and mb = Map.empty])
       (simp_all add: cells_def)
  have dns: "reify m h2 (HRef (b1 + 1)) = reify m h2 (HRef (b2 + 1))" for m
    using l1 [of 1] l2 [of 1] n1 [of 1] n2 [of 1]
    by (intro reify_HRef_cong [where k = Plain
          and ma = "[''enabled'' \<mapsto> HBool False]" and mb = "[''enabled'' \<mapsto> HBool False]"])
       (simp_all add: cells_def)
  have config: "reify m h2 (HRef (b1 + 2)) = reify m h2 (HRef (b2 + 2))" for m
    using l1 [of 2] l2 [of 2] n1 [of 2] n2 [of 2]
    by (intro reify_HRef_cong [where k = Plain
          and ma = "[''@opentelemetry/instrumentation-dns'' \<mapsto> HRef (b1 + 1)]"
          and mb = "[''@opentelemetry/instrumentation-dns'' \<mapsto> HRef (b2 + 1)]"])
       (simp_all add: cells_def dns [simplified])
  have instrumentations: "reify m h2 (HRef (b1 + 3)) = reify m h2 (HRef (b2 + 3))" for m
    using l1 [of 3] l2 [of 3] n1 [of 3] n2 [of 3]
    by (intro reify_HRef_cong [where k = Array and ma = Map.empty and mb = Map.empty])
       (simp_all add: cells_def)
  have base: "map_option (reify m h2) (base_defaults_st e b1 (b1 + 2) (b1 + 3) F f)
                = map_option (reify m h2) (base_defaults_st e b2 (b2 + 2) (b2 + 3) F f)" for m f
    by (cases e)
       (simp_all add: base_defaults_st_def developmentDefaults_defaults_st_def
          productionDefaults_defaults_st_def sampler config [simplified] instrumentations
          instrumentations [simplified] config)
  have "reify n h2 (HRef (b1 + 5)) = reify n h2 (HRef (b2 + 5))"
    using l1 [of 5] l2 [of 5] n1 [of 5] n2 [of 5]
    by (intro reify_HRef_cong [where k = Plain
          and ma = "base_defaults_st e b1 (b1 + 2) (b1 + 3) F ++ P"
          and mb = "base_defaults_st e b2 (b2 + 2) (b2 + 3) F ++ P"])
       (simp_all add: cells_def map_add_def base [simplified] split: option.split)
  then show ?thesis by (simp add: r1 r2)
qed

lemma defaults_st_extends:
  assumes "\<forall>a. arg = Some a \<longrightarrow> a < length h" and "defaults_st e arg h = (r, h')"
  shows "take (length h) h' = h" and "length h \<le> r" and "r < length h'"
proof -
  have "take (length h) h' = h \<and> length h \<le> r \<and> r < length h'"
  proof (cases arg)
    case None
    with assms(2) show ?thesis
      by (auto simp add: defaults_st_None defaults_st_Some)
  next
    case (Some a)
    with assms show ?thesis
      by (auto simp add: defaults_st_Some)
  qed
  then show "take (length h) h' = h" and "length h \<le> r" and "r < length h'"
    by simp_all
qed

lemma reify_append:
  assumes "closed_store h"
  shows "(\<forall>b. v = HRef b \<longrightarrow> b < length h) \<Longrightarrow> reify n (h @ ext) v = reify n h v"
proof (induction n arbitrary: v)
  case 0
  then show ?case by (cases v) simp_all
next
  case (Suc n)
  show ?case
  proof (cases v)
    case (HRef b)
    with Suc.prems have b: "b < length h" by simp
    obtain k m where c: "h ! b = HObj k m" by (cases "h ! b")
    have "reify n (h @ ext) w = reify n h w" if "m f = Some w" for f w
    proof (rule Suc.IH, intro allI impI)
      fix b' assume "w = HRef b'"
      with that have "own_properties h b f = Some (HRef b')"
        using b c by (simp add: own_properties_def)
      with assms b show "b' < length h" unfolding closed_store_def by blast
    qed
    then have "map_option (reify n (h @ ext)) (m f) = map_option (reify n h) (m f)" for f
      by (cases "m f") simp_all
    with b c HRef show ?thesis by (simp add: nth_append)
  qed simp_all
qed

lemma ToBoolean_reify:
  "(\<forall>b. v = HRef b \<longrightarrow> b < length h) \<Longrightarrow> ToBoolean (reify (Suc n) h v) = ToBoolean_st v"
  by (cases v) (auto split: hobj.split)

text \<open>Resolution keeps a closed store closed.\<close>

lemma closed_store_Nil: "closed_store []"
  by (simp add: closed_store_def)

lemma defaults_st_closed:
  assumes c: "closed_store h" and a: "a < length h"
    and r: "defaults_st e (Some a) h = (r, h')"
  shows "closed_store h'"
  unfolding closed_store_def
proof (intro allI impI)
  fix x f b
  assume x: "x < length h'" and p: "own_properties h' x f = Some (HRef b)"
  let ?b = "length h"
  let ?F = "read_prop h a ''forceDevExport''"
  let ?P = "own_properties h a"
  let ?cells = "[HObj (Instance ''AlwaysOnSampler'') Map.empty,
      HObj Plain [''enabled'' \<mapsto> HBool False],
      HObj Plain [''@opentelemetry/instrumentation-dns'' \<mapsto> HRef (?b + 1)],
      HObj Array Map.empty,
      HObj Plain (base_defaults_st e ?b (?b + 2) (?b + 3) ?F),
      HObj Plain (base_defaults_st e ?b (?b + 2) (?b + 3) ?F ++ ?P)]"
  have h': "h' = h @ ?cells"
    using r by (simp add: defaults_st_Some [OF a])
  have len: "length h' = ?b + 6" by (simp add: h')
  have base: "base_defaults_st e ?b (?b + 2) (?b + 3) ?F g = Some (HRef b') \<Longrightarrow> b' < ?b + 6"
    for g b'
    by (cases e)
       (auto simp add: base_defaults_st_def developmentDefaults_defaults_st_def
          productionDefaults_defaults_st_def split: if_splits)
  have ov: "?P g = Some (HRef b') \<Longrightarrow> b' < ?b + 6" for g b'
    using c a unfolding closed_store_def by fastforce
  show "b < length h'"
  proof (cases "x < ?b")
    case True
    with p have "own_properties h x f = Some (HRef b)"
      by (simp add: h' own_properties_append)
    with c True have "b < ?b" unfolding closed_store_def by blast
    then show ?thesis by (simp add: len)
  next
    case False
    then obtain i where i: "x = ?b + i" "i < 6"
      using x len by (metis add_diff_inverse_nat nat_add_left_cancel_less)
    from i(2) consider "i = 0" | "i = 1" | "i = 2" | "i = 3" | "i = 4" | "i = 5" by linarith
    then show ?thesis
    proof cases
      case 1 with p i show ?thesis by (simp add: h' own_properties_def nth_append)
    next
      case 2 with p i show ?thesis by (simp add: h' own_properties_def nth_append split: if_splits)
    next
      case 3 with p i show ?thesis by (auto simp add: h' own_properties_def nth_append split: if_splits)
    next
      case 4 with p i show ?thesis by (simp add: h' own_properties_def nth_append)
    next
      case 5 with p i base [of f b] show ?thesis
        by (simp add: h' own_properties_def nth_append len)
    next
      case 6 with p i base [of f b] ov [of f b] show ?thesis
        by (auto simp add: h' own_properties_def nth_append len map_add_def split: option.splits)
    qed
  qed
qed

text \<open>
  The two embeddings agree: in a closed store, the object that the store-level function
  returns reads, to depth \<open>n + 3\<close>, as the value that the value-level function gives for
  the overrides read to depth \<open>n + 2\<close>.
\<close>

lemma defaults_st_refines:
  assumes c: "closed_store h" and a: "a < length h"
    and r: "defaults_st e (Some a) h = (r, h')"
  shows "reify (n + 3) h' (HRef r)
           = JObject Plain
               (defaults e (Some (\<lambda>f. map_option (reify (n + 2) h) (own_properties h a f))))"
proof -
  let ?b = "length h"
  let ?F = "read_prop h a ''forceDevExport''"
  let ?P = "own_properties h a"
  let ?ov = "\<lambda>f. map_option (reify (n + 2) h) (?P f)"
  let ?cells = "[HObj (Instance ''AlwaysOnSampler'') Map.empty,
      HObj Plain [''enabled'' \<mapsto> HBool False],
      HObj Plain [''@opentelemetry/instrumentation-dns'' \<mapsto> HRef (?b + 1)],
      HObj Array Map.empty,
      HObj Plain (base_defaults_st e ?b (?b + 2) (?b + 3) ?F),
      HObj Plain (base_defaults_st e ?b (?b + 2) (?b + 3) ?F ++ ?P)]"
  have r: "r = ?b + 5" and h': "h' = h @ ?cells"
    using r by (simp_all add: defaults_st_Some [OF a])
  have valid: "\<forall>b. w = HRef b \<longrightarrow> b < length h" if "?P f = Some w" for f w
    using c a that unfolding closed_store_def by blast
  have sampler: "reify (n + 2) h' (HRef ?b) = AlwaysOnSampler"
    by (simp add: h' nth_append AlwaysOnSampler_def)
  have config: "reify (n + 2) h' (HRef (?b + 2))
                  = JObject Plain [''@opentelemetry/instrumentation-dns'' \<mapsto>
                                     JObject Plain [''enabled'' \<mapsto> JBool False]]"
    by (simp add: h' nth_append fun_eq_iff)
  have instrumentations: "reify (n + 2) h' (HRef (?b + 3)) = JObject Array Map.empty"
    by (simp add: h' nth_append)
  have export: "ToBoolean (get_prop ?ov ''forceDevExport'') = ToBoolean_st ?F"
  proof (cases "?P ''forceDevExport''")
    case None
    then show ?thesis by (simp add: get_prop_def read_prop_def)
  next
    case (Some w)
    with valid [OF Some] ToBoolean_reify [of w h "n + 1"] show ?thesis
      by (simp add: get_prop_def read_prop_def)
  qed
  have base: "map_option (reify (n + 2) h') (base_defaults_st e ?b (?b + 2) (?b + 3) ?F f)
                = base_defaults e ?ov f" for f
    using sampler config instrumentations export
    by (cases e)
       (simp_all add: base_defaults_st_def base_defaults_def developmentDefaults_defaults_st_def
          productionDefaults_defaults_st_def developmentDefaults_defaults_def
          productionDefaults_defaults_def)
  have "map_option (reify (n + 2) h') ((base_defaults_st e ?b (?b + 2) (?b + 3) ?F ++ ?P) f)
          = (base_defaults e ?ov ++ ?ov) f" for f
  proof (cases "?P f")
    case None
    then show ?thesis by (simp add: map_add_def base [simplified])
  next
    case (Some w)
    with reify_append [OF c valid [OF Some], of "n + 2" ?cells] show ?thesis
      by (simp add: map_add_def h')
  qed
  then have "(\<lambda>f. map_option (reify (n + 2) h')
                     ((base_defaults_st e ?b (?b + 2) (?b + 3) ?F ++ ?P) f))
               = base_defaults e ?ov ++ ?ov"
    by (rule ext)
  moreover have "reify (n + 3) h' (HRef r)
                  = JObject Plain (\<lambda>f. map_option (reify (n + 2) h')
                      ((base_defaults_st e ?b (?b + 2) (?b + 3) ?F ++ ?P) f))"
    by (simp add: r h' nth_append eval_nat_numeral)
  ultimately show ?thesis by (simp add: defaults_unfold)
qed

text \<open>
  C6. Purity and determinism. Resolution has no side effect on the store: the store after
  a call is the store before it with the fresh objects appended, so no object that
  existed before the call, the overrides included, is changed. Two calls with the same
  environment and the same overrides (the second made in the store left by the first,
  possibly grown by other allocations) return two distinct objects that are structurally
  equal: they read as the same value at every depth.
\<close>

theorem resolution_pure:
  assumes "\<forall>a. arg = Some a \<longrightarrow> a < length h"
    and "defaults_st e arg h = (r1, h1)"
    and "defaults_st e arg (h1 @ ext) = (r2, h2)"
  shows "take (length h) h1 = h \<and> take (length (h1 @ ext)) h2 = h1 @ ext
         \<and> r1 \<noteq> r2 \<and> (\<forall>n. reify n h2 (HRef r1) = reify n h2 (HRef r2))"
proof -
  have e1: "take (length h) h1 = h" "length h \<le> r1" "r1 < length h1"
    using defaults_st_extends [OF assms(1,2)] by simp_all
  have v2: "\<forall>a. arg = Some a \<longrightarrow> a < length (h1 @ ext)"
  proof (intro allI impI)
    fix a assume "arg = Some a"
    with assms(1) have "a < length h" by simp
    moreover have "length h \<le> length h1" using e1 by simp
    ultimately show "a < length (h1 @ ext)" by simp
  qed
  have e2: "take (length (h1 @ ext)) h2 = h1 @ ext" "length (h1 @ ext) \<le> r2"
    using defaults_st_extends [OF v2 assms(3)] by simp_all
  have ne: "r1 \<noteq> r2" using e1 e2 by simp
  have eq: "reify n h2 (HRef r1) = reify n h2 (HRef r2)" for n
  proof (cases arg)
    case (Some a)
    with assms(1) have a: "a < length h" by simp
    from v2 Some have a2: "a < length (h1 @ ext)" by simp
    have "h1 @ ext = h @ (drop (length h) h1 @ ext)"
      using e1(1) by (metis append_assoc append_take_drop_id)
    then have "own_properties (h1 @ ext) a = own_properties h a"
      using a own_properties_append by metis
    then show ?thesis
      using defaults_st_twice [OF a a2 _ assms(2,3) [unfolded Some]] by simp
  next
    case None
    let ?h = "h @ [HObj Plain Map.empty]"
    let ?H = "(h1 @ ext) @ [HObj Plain Map.empty]"
    have 1: "defaults_st e (Some (length h)) ?h = (r1, h1)"
      using assms(2) by (simp add: None defaults_st_None)
    have 2: "defaults_st e (Some (length (h1 @ ext))) ?H = (r2, h2)"
      using assms(3) by (simp add: None defaults_st_None)
    have h1: "\<exists>new. h1 = ?h @ new"
      using 1 by (auto simp add: defaults_st_Some)
    then obtain new where new: "h1 = ?h @ new" ..
    have two: "defaults_st e (Some (length (h1 @ ext))) (h1 @ (ext @ [HObj Plain Map.empty]))
                = (r2, h2)"
      using 2 by simp
    have p: "own_properties (h1 @ (ext @ [HObj Plain Map.empty])) (length (h1 @ ext))
               = own_properties ?h (length h)"
      by (simp add: own_properties_def nth_append)
    show ?thesis
      using defaults_st_twice [OF _ _ p 1 two] by simp
  qed
  from e1(1) e2(1) ne eq show ?thesis by blast
qed

theorem resolution_pure_witness:
  "take 1 (snd (defaults_st Development (Some 0)
                  [HObj Plain [''forceDevExport'' \<mapsto> HBool True]]))
     = [HObj Plain [''forceDevExport'' \<mapsto> HBool True]]
   \<and> fst (defaults_st Development (Some 0) [HObj Plain [''forceDevExport'' \<mapsto> HBool True]])
       \<noteq> fst (defaults_st Development (Some 0)
                (snd (defaults_st Development (Some 0)
                        [HObj Plain [''forceDevExport'' \<mapsto> HBool True]])))
   \<and> reify 3
        (snd (defaults_st Development (Some 0)
                (snd (defaults_st Development (Some 0)
                        [HObj Plain [''forceDevExport'' \<mapsto> HBool True]]))))
        (HRef (fst (defaults_st Development (Some 0)
                      [HObj Plain [''forceDevExport'' \<mapsto> HBool True]])))
     = reify 3
        (snd (defaults_st Development (Some 0)
                (snd (defaults_st Development (Some 0)
                        [HObj Plain [''forceDevExport'' \<mapsto> HBool True]]))))
        (HRef (fst (defaults_st Development (Some 0)
                (snd (defaults_st Development (Some 0)
                        [HObj Plain [''forceDevExport'' \<mapsto> HBool True]])))))"
proof -
  let ?h = "[HObj Plain [''forceDevExport'' \<mapsto> HBool True]]"
  let ?c1 = "defaults_st Development (Some 0) ?h"
  let ?c2 = "defaults_st Development (Some 0) (snd ?c1 @ [])"
  have v: "\<forall>a. Some (0::nat) = Some a \<longrightarrow> a < length ?h" by simp
  have 1: "?c1 = (fst ?c1, snd ?c1)" and 2: "?c2 = (fst ?c2, snd ?c2)" by simp_all
  have l: "length ?h = 1" by simp
  from resolution_pure [OF v 1 2] show ?thesis
    unfolding l append_Nil2 by blast
qed

end
